theory Spec2Isabelle
  imports Complex_Main
begin

section \<open>Staged category filter (\<open>src/search/pinecone_result_filter.py\<close>)\<close>

text \<open>
  A shallow embedding of \<open>PineconeResultFilter.filter_by_categories\<close>. Python
  integers are \<open>int\<close>.
\<close>

subsection \<open>Data\<close>

text \<open>
  Similarity scores are Python floats. The source never computes with them, it only
  compares them, so a float is a real number or NaN: numbers compare as numbers and
  every comparison with NaN is false. The two infinities are not represented; Python
  orders them like numbers, below and above all others.
\<close>

datatype pyfloat = Num real | NaN

text \<open>The Python comparisons \<open>a < b\<close>, \<open>a > b\<close> and \<open>a >= b\<close> on floats.\<close>

fun py_lt :: "pyfloat \<Rightarrow> pyfloat \<Rightarrow> bool" where
  "py_lt (Num x) (Num y) = (x < y)"
| "py_lt _ _ = False"

definition py_gt :: "pyfloat \<Rightarrow> pyfloat \<Rightarrow> bool" where
  "py_gt a b = py_lt b a"

fun py_ge :: "pyfloat \<Rightarrow> pyfloat \<Rightarrow> bool" where
  "py_ge (Num x) (Num y) = (x \<ge> y)"
| "py_ge _ _ = False"

text \<open>
  A result record of the searcher is a Python dict that may or may not hold the keys
  \<open>"mb_sn"\<close> and \<open>"score"\<close>; a missing key is \<open>None\<close>.
\<close>

record hit =
  mb_sn :: "string option"
  score :: "pyfloat option"

text \<open>An entry of the returned list: \<open>{"mb_sn": ..., "score": ...}\<close>, both keys present.\<close>

record panel =
  panel_mb_sn :: string
  panel_score :: pyfloat

datatype py_error = KeyError string

type_synonym embedding = "real list"

text \<open>A metadata filter is an opaque dict, passed through; only its emptiness is read.\<close>

type_synonym filter_spec = "(string \<times> string) list"

text \<open>
  The keyword arguments of one \<open>searcher.search_by_category\<close> call. The final re-query
  leaves \<open>metadata_filter\<close> out, which is \<open>None\<close> here.
\<close>

record search_call =
  query_embedding :: embedding
  category :: string
  top_k :: int
  filter_mb_sns :: "string list option"
  metadata_filter :: "filter_spec option"

text \<open>
  The searcher is an external collaborator. It may answer each call as it likes and may
  keep state between calls, so it is a function of its own state and the call.
\<close>

type_synonym 's searcher = "'s \<Rightarrow> search_call \<Rightarrow> hit list \<times> 's"

text \<open>The state threaded through a run: the collaborator's state and the calls issued so far.\<close>

record 's world =
  searcher_state :: 's
  call_log :: "search_call list"

definition search_by_category ::
  "'s searcher \<Rightarrow> search_call \<Rightarrow> 's world \<Rightarrow> hit list \<times> 's world" where
  "search_by_category srch c w =
     (case srch (searcher_state w) c of
        (rs, s') \<Rightarrow> (rs, \<lparr>searcher_state = s', call_log = call_log w @ [c]\<rparr>))"

subsection \<open>Reading result records\<close>

text \<open>\<open>r.get("mb_sn", "")\<close>\<close>

definition mb_sn_or_empty :: "hit \<Rightarrow> string" where
  "mb_sn_or_empty r = (case mb_sn r of None \<Rightarrow> [] | Some m \<Rightarrow> m)"

text \<open>\<open>r.get("score", 0.0)\<close>\<close>

definition score_or_zero :: "hit \<Rightarrow> pyfloat" where
  "score_or_zero r = (case score r of None \<Rightarrow> Num 0 | Some s \<Rightarrow> s)"

text \<open>The truth value of \<open>r.get("mb_sn")\<close>: the key is present and the string is not empty.\<close>

definition has_mb_sn :: "hit \<Rightarrow> bool" where
  "has_mb_sn r = (case mb_sn r of None \<Rightarrow> False | Some m \<Rightarrow> m \<noteq> [])"

text \<open>\<open>r.get("mb_sn") in candidate_mb_sns\<close>: \<open>None\<close> is in no list of strings.\<close>

definition mb_sn_in :: "hit \<Rightarrow> string list \<Rightarrow> bool" where
  "mb_sn_in r cands = (case mb_sn r of None \<Rightarrow> False | Some m \<Rightarrow> m \<in> set cands)"

subsection \<open>Python containers\<close>

text \<open>
  A Python dict keeps its keys in the order of their first insertion, and \<open>items()\<close>
  yields them in that order: an association list with distinct keys.
\<close>

fun dict_set :: "'k \<Rightarrow> 'v \<Rightarrow> ('k \<times> 'v) list \<Rightarrow> ('k \<times> 'v) list" where
  "dict_set k v [] = [(k, v)]"
| "dict_set k v ((k', v') # kvs) =
     (if k = k' then (k, v) # kvs else (k', v') # dict_set k v kvs)"

text \<open>
  \<open>if mb_sn not in d or score > d[mb_sn]: d[mb_sn] = score\<close>, the best-score fold used
  by every stage.
\<close>

definition keep_best ::
  "string \<Rightarrow> pyfloat \<Rightarrow> (string \<times> pyfloat) list \<Rightarrow> (string \<times> pyfloat) list" where
  "keep_best m s d =
     (case map_of d m of
        None \<Rightarrow> dict_set m s d
      | Some old \<Rightarrow> if py_gt s old then dict_set m s d else d)"

text \<open>
  \<open>sorted(xs, key=..., reverse=True)\<close> on float keys. Python's sort compares keys
  with \<open><\<close> only, is stable, and \<open>reverse=True\<close> keeps the order of equal keys.
  When no key is NaN the keys are linearly ordered and every such sort returns the
  same list, the one computed here by insertion from the right. With a NaN among the
  keys the comparisons are inconsistent; what Python returns is then a permutation of
  the input whose order depends on the sorting algorithm, and the list computed here
  is one such permutation (it is the list Python returns on the inputs of up to three
  elements used below). Of that case only the permutation is relied on.
\<close>

fun insert_desc :: "('a \<Rightarrow> pyfloat) \<Rightarrow> 'a \<Rightarrow> 'a list \<Rightarrow> 'a list" where
  "insert_desc key x [] = [x]"
| "insert_desc key x (y # ys) =
     (if py_lt (key x) (key y) then y # insert_desc key x ys else x # y # ys)"

definition py_sorted_desc :: "('a \<Rightarrow> pyfloat) \<Rightarrow> 'a list \<Rightarrow> 'a list" where
  "py_sorted_desc key xs = foldr (insert_desc key) xs []"

text \<open>\<open>sorted(d.items(), key=lambda x: x[1], reverse=True)\<close>\<close>

definition sorted_by_score_desc ::
  "(string \<times> pyfloat) list \<Rightarrow> (string \<times> pyfloat) list" where
  "sorted_by_score_desc items = py_sorted_desc snd items"

text \<open>\<open>list(OrderedDict.fromkeys(keys))\<close>: the first occurrence of each key, in order.\<close>

definition ordered_fromkeys :: "'a list \<Rightarrow> 'a list" where
  "ordered_fromkeys keys = foldl (\<lambda>d k. if k \<in> set d then d else d @ [k]) [] keys"

text \<open>The slice \<open>xs[:k]\<close>; a negative \<open>k\<close> counts from the end.\<close>

definition slice_to :: "int \<Rightarrow> 'a list \<Rightarrow> 'a list" where
  "slice_to k xs =
     (if k < 0 then take (nat (int (length xs) + k)) xs else take (nat k) xs)"

text \<open>\<open>(topic_filters or {}).get(category, {})\<close>\<close>

definition get_filter :: "(string \<rightharpoonup> filter_spec) option \<Rightarrow> string \<Rightarrow> filter_spec" where
  "get_filter topic_filters cat =
     (case topic_filters of
        None \<Rightarrow> []
      | Some tf \<Rightarrow> (case tf cat of None \<Rightarrow> [] | Some f \<Rightarrow> f))"

subsection \<open>Stage 1: seeding\<close>

text \<open>Lines 52-64: the number of results requested from the first search.\<close>

definition initial_count :: "int option \<Rightarrow> bool \<Rightarrow> int" where
  "initial_count final_count has_metadata_filter =
     (case final_count of
        None \<Rightarrow> (if has_metadata_filter then 10000 else 10000)
      | Some fc \<Rightarrow> (if has_metadata_filter then 10000 else max (fc * 10) 2000))"

text \<open>Lines 77-84: the best score of every non-empty identifier.\<close>

definition filtered_mb_sn_scores :: "hit list \<Rightarrow> (string \<times> pyfloat) list" where
  "filtered_mb_sn_scores first_results =
     foldl (\<lambda>d r. let m = mb_sn_or_empty r in
                   if m \<noteq> [] then keep_best m (score_or_zero r) d else d)
           [] first_results"

text \<open>Lines 75-94: the candidates of a seeding stage that has a metadata filter.\<close>

definition seed_filtered :: "hit list \<Rightarrow> string list" where
  "seed_filtered first_results =
     map fst (sorted_by_score_desc (filtered_mb_sn_scores first_results))"

text \<open>
  Lines 99-107: the candidates of a seeding stage without a metadata filter. The sort
  key is \<open>x["score"]\<close>, a subscript: it raises \<open>KeyError\<close> on a record that has no score.
  \<open>r["mb_sn"]\<close> in line 104 cannot raise, every record left has the key.
\<close>

definition seed_unfiltered :: "int option \<Rightarrow> hit list \<Rightarrow> py_error + string list" where
  "seed_unfiltered final_count first_results =
     (let with_id = filter has_mb_sn first_results in
      if \<not> list_all (\<lambda>r. score r \<noteq> None) with_id then Inl (KeyError ''score'')
      else
        let first_sorted = py_sorted_desc (\<lambda>x. the (score x)) with_id;
            candidate_mb_sns = ordered_fromkeys (map mb_sn_or_empty first_sorted)
        in Inr (case final_count of
                  None \<Rightarrow> candidate_mb_sns
                | Some fc \<Rightarrow> slice_to (max (fc * 10) 10000) candidate_mb_sns))"

text \<open>Lines 47-107: the first search and the initial candidates.\<close>

definition seed_stage ::
  "'s searcher \<Rightarrow> int option \<Rightarrow> (string \<rightharpoonup> filter_spec) option \<Rightarrow> string \<Rightarrow> embedding \<Rightarrow>
   's world \<Rightarrow> (py_error + string list) \<times> 's world" where
  "seed_stage srch final_count topic_filters first_category first_embedding w =
     (let first_filter = get_filter topic_filters first_category;
          has_metadata_filter = (first_filter \<noteq> [])
      in case search_by_category srch
                \<lparr>query_embedding = first_embedding, category = first_category,
                 top_k = initial_count final_count has_metadata_filter,
                 filter_mb_sns = None, metadata_filter = Some first_filter\<rparr> w of
           (first_results, w') \<Rightarrow>
             (if has_metadata_filter then Inr (seed_filtered first_results)
              else seed_unfiltered final_count first_results, w'))"

subsection \<open>Stages 2..N: refinement\<close>

text \<open>Lines 129-137: the number of results requested by a refinement stage.\<close>

definition search_count :: "int option \<Rightarrow> bool \<Rightarrow> string list \<Rightarrow> int" where
  "search_count final_count has_category_filter candidate_mb_sns =
     max (if final_count = None \<and> has_category_filter
          then min (int (length candidate_mb_sns) * 3) 10000
          else min (int (length candidate_mb_sns) * 2) 10000) 1"

text \<open>
  Lines 150-159: with a metadata filter, the identifiers of the results that are
  candidates, then the best score of each.
\<close>

definition rescore_filtered :: "string list \<Rightarrow> hit list \<Rightarrow> (string \<times> pyfloat) list" where
  "rescore_filtered candidate_mb_sns results =
     (let filtered_mb_sns =
            set (map mb_sn_or_empty (filter (\<lambda>r. mb_sn_in r candidate_mb_sns) results))
      in foldl (\<lambda>d r. let m = mb_sn_or_empty r in
                       if m \<in> filtered_mb_sns then keep_best m (score_or_zero r) d else d)
               [] results)"

text \<open>Lines 169-174 and 196-203: the best score of each result that is a candidate.\<close>

definition rescore :: "string list \<Rightarrow> hit list \<Rightarrow> (string \<times> pyfloat) list" where
  "rescore candidate_mb_sns results =
     foldl (\<lambda>d r. let m = mb_sn_or_empty r in
                   if m \<in> set candidate_mb_sns then keep_best m (score_or_zero r) d else d)
           [] results"

text \<open>Lines 120-186: one refinement stage, for a category whose embedding is present.\<close>

definition refine_stage ::
  "'s searcher \<Rightarrow> int option \<Rightarrow> (string \<rightharpoonup> filter_spec) option \<Rightarrow> string \<Rightarrow> embedding \<Rightarrow>
   string list \<Rightarrow> 's world \<Rightarrow> string list \<times> 's world" where
  "refine_stage srch final_count topic_filters cat emb candidate_mb_sns w =
     (let category_filter = get_filter topic_filters cat;
          has_category_filter = (category_filter \<noteq> [])
      in case search_by_category srch
                \<lparr>query_embedding = emb, category = cat,
                 top_k = search_count final_count has_category_filter candidate_mb_sns,
                 filter_mb_sns = Some candidate_mb_sns,
                 metadata_filter = Some category_filter\<rparr> w of
           (results, w') \<Rightarrow>
             (if has_category_filter
              then map fst (sorted_by_score_desc (rescore_filtered candidate_mb_sns results))
              else
                let sorted_mb_sns = sorted_by_score_desc (rescore candidate_mb_sns results);
                    next_candidate_count =
                      (case final_count of
                         None \<Rightarrow> int (length sorted_mb_sns)
                       | Some fc \<Rightarrow> max (fc * 3) 10000)
                in map fst (slice_to next_candidate_count sorted_mb_sns),
              w'))"

text \<open>
  Lines 114-186: the loop over \<open>category_order[1:]\<close>. A category without an embedding
  is skipped (\<open>continue\<close>); an empty candidate list ends the loop (\<open>break\<close>).
\<close>

fun refine_loop ::
  "'s searcher \<Rightarrow> (string \<rightharpoonup> embedding) \<Rightarrow> int option \<Rightarrow> (string \<rightharpoonup> filter_spec) option \<Rightarrow>
   string list \<Rightarrow> string list \<Rightarrow> 's world \<Rightarrow> string list \<times> 's world" where
  "refine_loop srch embeddings final_count topic_filters [] candidate_mb_sns w =
     (candidate_mb_sns, w)"
| "refine_loop srch embeddings final_count topic_filters (cat # cats) candidate_mb_sns w =
     (case embeddings cat of
        None \<Rightarrow> refine_loop srch embeddings final_count topic_filters cats candidate_mb_sns w
      | Some emb \<Rightarrow>
          if candidate_mb_sns = [] then (candidate_mb_sns, w)
          else
            (case refine_stage srch final_count topic_filters cat emb candidate_mb_sns w of
               (candidate_mb_sns', w') \<Rightarrow>
                 refine_loop srch embeddings final_count topic_filters cats
                   candidate_mb_sns' w'))"

subsection \<open>Final ranking\<close>

text \<open>
  Lines 205-219: the final scores in descending order, the identifiers cut to
  \<open>final_count\<close> when it is given, each paired with \<open>final_scores.get(mb_sn, 0.0)\<close>.
\<close>

definition emit :: "int option \<Rightarrow> (string \<times> pyfloat) list \<Rightarrow> panel list" where
  "emit final_count final_scores =
     (let final_sorted = sorted_by_score_desc final_scores;
          final_mb_sns = map fst final_sorted;
          final_mb_sns' = (case final_count of
                             None \<Rightarrow> final_mb_sns
                           | Some fc \<Rightarrow> slice_to fc final_mb_sns)
      in map (\<lambda>m. \<lparr>panel_mb_sn = m,
                    panel_score = (case map_of final_scores m of
                                     None \<Rightarrow> Num 0 | Some s \<Rightarrow> s)\<rparr>)
             final_mb_sns')"

text \<open>
  Lines 189-221. \<open>embeddings[category_order[-1]]\<close> is a subscript: it raises
  \<open>KeyError\<close> when the last category has no embedding. \<open>category_order\<close> is not empty
  here.
\<close>

definition final_ranking ::
  "'s searcher \<Rightarrow> (string \<rightharpoonup> embedding) \<Rightarrow> string list \<Rightarrow> int option \<Rightarrow> string list \<Rightarrow>
   's world \<Rightarrow> (py_error + panel list) \<times> 's world" where
  "final_ranking srch embeddings category_order final_count candidate_mb_sns w =
     (case embeddings (last category_order) of
        None \<Rightarrow> (Inl (KeyError (last category_order)), w)
      | Some emb \<Rightarrow>
          (case search_by_category srch
                  \<lparr>query_embedding = emb, category = last category_order,
                   top_k = int (length candidate_mb_sns),
                   filter_mb_sns = Some candidate_mb_sns,
                   metadata_filter = None\<rparr> w of
             (final_results, w') \<Rightarrow>
               (Inr (emit final_count (rescore candidate_mb_sns final_results)), w')))"

subsection \<open>The operation\<close>

text \<open>
  The candidates that enter the final ranking: \<open>None\<close> when the run returns \<open>[]\<close>
  before it (lines 36, 45 and 111).
\<close>

definition candidates_for_final ::
  "'s searcher \<Rightarrow> (string \<rightharpoonup> embedding) \<Rightarrow> string list \<Rightarrow> int option \<Rightarrow>
   (string \<rightharpoonup> filter_spec) option \<Rightarrow> 's world \<Rightarrow>
   (py_error + string list option) \<times> 's world" where
  "candidates_for_final srch embeddings category_order final_count topic_filters w =
     (case category_order of
        [] \<Rightarrow> (Inr None, w)
      | first_category # rest \<Rightarrow>
          (case embeddings first_category of
             None \<Rightarrow> (Inr None, w)
           | Some first_embedding \<Rightarrow>
               (case seed_stage srch final_count topic_filters first_category
                       first_embedding w of
                  (Inl e, w1) \<Rightarrow> (Inl e, w1)
                | (Inr candidate_mb_sns, w1) \<Rightarrow>
                    if candidate_mb_sns = [] then (Inr None, w1)
                    else
                      (case refine_loop srch embeddings final_count topic_filters rest
                              candidate_mb_sns w1 of
                         (candidate_mb_sns', w2) \<Rightarrow> (Inr (Some candidate_mb_sns'), w2)))))"

text \<open>
  The dict \<open>final_scores\<close> of lines 196-203 in a run; it is empty in a run that ends
  before line 196.
\<close>

definition final_scores ::
  "'s searcher \<Rightarrow> (string \<rightharpoonup> embedding) \<Rightarrow> string list \<Rightarrow> int option \<Rightarrow>
   (string \<rightharpoonup> filter_spec) option \<Rightarrow> 's world \<Rightarrow> (string \<times> pyfloat) list" where
  "final_scores srch embeddings category_order final_count topic_filters w =
     (case candidates_for_final srch embeddings category_order final_count topic_filters w of
        (Inr (Some candidate_mb_sns), w') \<Rightarrow>
          (case embeddings (last category_order) of
             None \<Rightarrow> []
           | Some emb \<Rightarrow>
               rescore candidate_mb_sns
                 (fst (search_by_category srch
                         \<lparr>query_embedding = emb, category = last category_order,
                          top_k = int (length candidate_mb_sns),
                          filter_mb_sns = Some candidate_mb_sns,
                          metadata_filter = None\<rparr> w')))
      | _ \<Rightarrow> [])"

definition filter_by_categories ::
  "'s searcher \<Rightarrow> (string \<rightharpoonup> embedding) \<Rightarrow> string list \<Rightarrow> int option \<Rightarrow>
   (string \<rightharpoonup> filter_spec) option \<Rightarrow> 's world \<Rightarrow> (py_error + panel list) \<times> 's world" where
  "filter_by_categories srch embeddings category_order final_count topic_filters w =
     (case candidates_for_final srch embeddings category_order final_count topic_filters w of
        (Inl e, w') \<Rightarrow> (Inl e, w')
      | (Inr None, w') \<Rightarrow> (Inr [], w')
      | (Inr (Some candidate_mb_sns), w') \<Rightarrow>
          final_ranking srch embeddings category_order final_count candidate_mb_sns w')"

subsection \<open>Auxiliary definitions for the proofs\<close>

text \<open>
  The three score loops of the source (lines 78-84, 154-159 and 170-174, 197-203) are
  one fold that differs in the test on the identifier; \<open>collect\<close> is that fold from any
  starting dict.
\<close>

definition collect ::
  "(string \<Rightarrow> bool) \<Rightarrow> (string \<times> pyfloat) list \<Rightarrow> hit list \<Rightarrow> (string \<times> pyfloat) list" where
  "collect P d rs =
     foldl (\<lambda>d r. if P (mb_sn_or_empty r)
                   then keep_best (mb_sn_or_empty r) (score_or_zero r) d else d) d rs"

text \<open>What the best-score fold leaves for one identifier, given its scores in order.\<close>

fun fold_best :: "pyfloat option \<Rightarrow> pyfloat list \<Rightarrow> pyfloat option" where
  "fold_best v [] = v"
| "fold_best v (s # ss) =
     fold_best (Some (case v of None \<Rightarrow> s
                      | Some old \<Rightarrow> if py_gt s old then s else old)) ss"

text \<open>\<open>score(a) >= score(b)\<close> for all adjacent pairs \<open>(a, b)\<close> of a result.\<close>

fun non_increasing :: "panel list \<Rightarrow> bool" where
  "non_increasing (a # b # rest) =
     (py_ge (panel_score a) (panel_score b) \<and> non_increasing (b # rest))"
| "non_increasing _ = True"

text \<open>The number of a float that is not NaN.\<close>

fun num :: "pyfloat \<Rightarrow> real" where
  "num (Num x) = x"
| "num NaN = 0"

definition as_panel :: "string \<times> pyfloat \<Rightarrow> panel" where
  "as_panel x = \<lparr>panel_mb_sn = fst x, panel_score = snd x\<rparr>"

subsection \<open>Concrete runs\<close>

definition hit_of :: "string \<Rightarrow> real \<Rightarrow> hit" where
  "hit_of m s = \<lparr>mb_sn = Some m, score = Some (Num s)\<rparr>"

definition w0 :: "unit world" where
  "w0 = \<lparr>searcher_state = (), call_log = []\<rparr>"

definition one_embedding :: "string \<rightharpoonup> embedding" where
  "one_embedding = [''basic'' \<mapsto> [1]]"

definition two_embeddings :: "string \<rightharpoonup> embedding" where
  "two_embeddings = [''basic'' \<mapsto> [1], ''income'' \<mapsto> [2]]"


text \<open>\<open>{"basic": {"age_min": "30"}, "car": {"owner": "yes"}}\<close>\<close>

definition some_filters :: "(string \<rightharpoonup> filter_spec) option" where
  "some_filters =
     Some [''basic'' \<mapsto> [(''age_min'', ''30'')], ''car'' \<mapsto> [(''owner'', ''yes'')]]"

text \<open>A searcher that answers every call with the one panel \<open>p1\<close>.\<close>

definition searcher_one :: "unit searcher" where
  "searcher_one s c = ([hit_of ''p1'' 9], s)"

text \<open>
  A searcher that finds two panels in an unrestricted search and, given an allow-list,
  returns two records of \<open>p1\<close> only.
\<close>

definition searcher_omit :: "unit searcher" where
  "searcher_omit s c =
     (if filter_mb_sns c = None then [hit_of ''p1'' 9, hit_of ''p2'' 8]
      else [hit_of ''p1'' 7, hit_of ''p1'' 6], s)"

text \<open>The same with three panels found and three records of \<open>p1\<close> returned.\<close>

definition searcher_repeat :: "unit searcher" where
  "searcher_repeat s c =
     (if filter_mb_sns c = None then [hit_of ''p1'' 9, hit_of ''p2'' 8, hit_of ''p3'' 7]
      else [hit_of ''p1'' 6, hit_of ''p1'' 5, hit_of ''p1'' 4], s)"

text \<open>A searcher that finds one panel in an unrestricted search and nothing after it.\<close>

definition searcher_seed_only :: "unit searcher" where
  "searcher_seed_only s c = (if filter_mb_sns c = None then [hit_of ''p1'' 9] else [], s)"

text \<open>A searcher whose record has an identifier and no score.\<close>

definition searcher_noscore :: "unit searcher" where
  "searcher_noscore s c = ([\<lparr>mb_sn = Some ''p1'', score = None\<rparr>], s)"

text \<open>A searcher that returns the same identifier twice, and three panels in all.\<close>

definition searcher_dup :: "unit searcher" where
  "searcher_dup s c = ([hit_of ''p1'' 9, hit_of ''p2'' 8, hit_of ''p1'' 7, hit_of ''p3'' 6], s)"

text \<open>
  A searcher that finds three panels in an unrestricted search and, given an allow-list,
  returns a NaN score for \<open>p1\<close>.
\<close>

definition searcher_nan :: "unit searcher" where
  "searcher_nan s c =
     (if filter_mb_sns c = None then [hit_of ''p1'' 9, hit_of ''p2'' 8, hit_of ''p3'' 7]
      else [hit_of ''p2'' 1, \<lparr>mb_sn = Some ''p1'', score = Some NaN\<rparr>, hit_of ''p3'' 2], s)"


section \<open>Properties\<close>

lemmas model_defs = filter_by_categories_def candidates_for_final_def seed_stage_def
  seed_unfiltered_def seed_filtered_def filtered_mb_sn_scores_def refine_stage_def
  final_ranking_def emit_def rescore_def rescore_filtered_def search_by_category_def
  get_filter_def initial_count_def search_count_def keep_best_def sorted_by_score_desc_def
  py_sorted_desc_def py_gt_def final_scores_def
  ordered_fromkeys_def slice_to_def mb_sn_or_empty_def score_or_zero_def has_mb_sn_def
  mb_sn_in_def hit_of_def w0_def

subsection \<open>Dicts, sorting and slices\<close>

lemma collect_Nil: "collect P d [] = d"
  by (simp add: collect_def)

lemma collect_Cons:
  "collect P d (r # rs) =
     collect P (if P (mb_sn_or_empty r) then keep_best (mb_sn_or_empty r) (score_or_zero r) d else d) rs"
  by (simp add: collect_def)

lemma rescore_collect: "rescore cands rs = collect (\<lambda>m. m \<in> set cands) [] rs"
  by (simp add: rescore_def collect_def Let_def)

lemma filtered_mb_sn_scores_collect: "filtered_mb_sn_scores rs = collect (\<lambda>m. m \<noteq> []) [] rs"
  by (simp add: filtered_mb_sn_scores_def collect_def Let_def)

lemma rescore_filtered_collect:
  "rescore_filtered cands rs =
     collect (\<lambda>m. m \<in> set (map mb_sn_or_empty (filter (\<lambda>r. mb_sn_in r cands) rs))) [] rs"
  by (simp add: rescore_filtered_def collect_def Let_def)

lemma map_fst_dict_set: "map fst (dict_set k v d) = (if k \<in> fst ` set d then map fst d else map fst d @ [k])"
  by (induction d) (auto simp: image_iff, force+)

lemma map_of_dict_set: "map_of (dict_set k v d) = (map_of d)(k \<mapsto> v)"
  by (induction d) (auto simp: fun_eq_iff)

lemma map_fst_keep_best:
  "map fst (keep_best m s d) = (if m \<in> fst ` set d then map fst d else map fst d @ [m])"
  by (auto simp: keep_best_def map_fst_dict_set map_of_eq_None_iff split: option.splits
        dest!: map_of_SomeD intro: rev_image_eqI)

lemma map_of_keep_best:
  "map_of (keep_best m s d) =
     (map_of d)(m \<mapsto> (case map_of d m of None \<Rightarrow> s
                           | Some old \<Rightarrow> if py_gt s old then s else old))"
  by (auto simp: keep_best_def map_of_dict_set fun_eq_iff split: option.splits)

lemma distinct_keep_best: "distinct (map fst d) \<Longrightarrow> distinct (map fst (keep_best m s d))"
  by (simp add: map_fst_keep_best)

lemma distinct_collect: "distinct (map fst d) \<Longrightarrow> distinct (map fst (collect P d rs))"
  by (induction rs arbitrary: d) (simp_all add: collect_Nil collect_Cons distinct_keep_best)

lemma keys_collect:
  "fst ` set (collect P d rs) = fst ` set d \<union> {m. P m \<and> m \<in> mb_sn_or_empty ` set rs}"
proof (induction rs arbitrary: d)
  case Nil
  show ?case by (simp add: collect_Nil)
next
  case (Cons r rs)
  have k: "fst ` set (keep_best m s d) = insert m (fst ` set d)" for m s
    using map_fst_keep_best [of m s d] by (metis (no_types, lifting) insert_absorb list.set_map set_append list.simps(15) Un_insert_right sup_bot.right_neutral empty_set)
  show ?case
    by (auto simp: collect_Cons Cons.IH k)
qed

lemma map_slice_to: "map f (slice_to k xs) = slice_to k (map f xs)"
  by (simp add: slice_to_def take_map)

lemma set_slice_to: "set (slice_to k xs) \<subseteq> set xs"
  by (auto simp: slice_to_def dest: in_set_takeD)

lemma distinct_slice_to: "distinct xs \<Longrightarrow> distinct (slice_to k xs)"
  by (simp add: slice_to_def)

lemma set_insert_desc: "set (insert_desc key x xs) = insert x (set xs)"
  by (induction xs) auto

lemma set_py_sorted_desc: "set (py_sorted_desc key xs) = set xs"
  by (induction xs) (simp_all add: py_sorted_desc_def set_insert_desc)

lemma distinct_map_insert_desc:
  "distinct (map g (insert_desc key x xs)) = (g x \<notin> g ` set xs \<and> distinct (map g xs))"
  by (induction xs) (auto simp: set_insert_desc)

lemma distinct_map_py_sorted_desc:
  "distinct (map g (py_sorted_desc key xs)) = distinct (map g xs)"
  by (induction xs)
     (simp_all add: py_sorted_desc_def distinct_map_insert_desc
        set_py_sorted_desc [unfolded py_sorted_desc_def])

lemma py_lt_num: "a \<noteq> NaN \<Longrightarrow> b \<noteq> NaN \<Longrightarrow> py_lt a b = (num a < num b)"
  by (cases a; cases b) simp_all

lemma py_ge_num: "a \<noteq> NaN \<Longrightarrow> b \<noteq> NaN \<Longrightarrow> py_ge a b = (num b \<le> num a)"
  by (cases a; cases b) simp_all

text \<open>Without NaN keys the sort is the stable sort of the library on the negated keys.\<close>

lemma insert_desc_insort_key:
  "key x \<noteq> NaN \<Longrightarrow> \<forall>y \<in> set xs. key y \<noteq> NaN \<Longrightarrow>
     insert_desc key x xs = insort_key (\<lambda>x. - num (key x)) x xs"
  by (induction xs) (auto simp: py_lt_num)

lemma py_sorted_desc_sort_key:
  "\<forall>x \<in> set xs. key x \<noteq> NaN \<Longrightarrow>
     py_sorted_desc key xs = sort_key (\<lambda>x. - num (key x)) xs"
proof (induction xs)
  case Nil
  show ?case by (simp add: py_sorted_desc_def)
next
  case (Cons x xs)
  have "py_sorted_desc key (x # xs) = insert_desc key x (py_sorted_desc key xs)"
    by (simp add: py_sorted_desc_def)
  also have "\<dots> = insert_desc key x (sort_key (\<lambda>x. - num (key x)) xs)"
    using Cons by simp
  also have "\<dots> = insort_key (\<lambda>x. - num (key x)) x (sort_key (\<lambda>x. - num (key x)) xs)"
    using Cons.prems by (intro insert_desc_insort_key) simp_all
  finally show ?case by simp
qed

lemma sorted_wrt_py_sorted_desc:
  assumes "\<forall>x \<in> set xs. key x \<noteq> NaN"
  shows "sorted_wrt (\<lambda>a b. py_ge (key a) (key b)) (py_sorted_desc key xs)"
proof -
  let ?ys = "sort_key (\<lambda>x. - num (key x)) xs"
  have "sorted (map (\<lambda>x. - num (key x)) ?ys)"
    by (rule sorted_sort_key)
  then have "sorted_wrt (\<lambda>a b. num (key b) \<le> num (key a)) ?ys"
    by (simp add: sorted_map)
  moreover have "\<forall>x \<in> set ?ys. key x \<noteq> NaN"
    using assms by simp
  ultimately have "sorted_wrt (\<lambda>a b. py_ge (key a) (key b)) ?ys"
    by (auto intro: sorted_wrt_mono_rel [rotated] simp: py_ge_num)
  then show ?thesis
    using assms by (simp add: py_sorted_desc_sort_key)
qed

lemma distinct_keys_sorted:
  "distinct (map fst (sorted_by_score_desc d)) = distinct (map fst d)"
  by (simp add: sorted_by_score_desc_def distinct_map_py_sorted_desc)

lemma set_sorted_by_score_desc: "set (sorted_by_score_desc d) = set d"
  by (simp add: sorted_by_score_desc_def set_py_sorted_desc)

lemma sorted_wrt_desc:
  "NaN \<notin> snd ` set d \<Longrightarrow> sorted_wrt (\<lambda>a b. py_ge (snd a) (snd b)) (sorted_by_score_desc d)"
  unfolding sorted_by_score_desc_def by (rule sorted_wrt_py_sorted_desc) force

lemma sorted_wrt_slice_to: "sorted_wrt R xs \<Longrightarrow> sorted_wrt R (slice_to k xs)"
  by (simp add: slice_to_def)

lemma emit_as_panel:
  assumes "distinct (map fst d)"
  shows "emit fc d =
           map as_panel (case fc of None \<Rightarrow> sorted_by_score_desc d
                         | Some k \<Rightarrow> slice_to k (sorted_by_score_desc d))"
proof -
  define items where "items = (case fc of None \<Rightarrow> sorted_by_score_desc d
                         | Some k \<Rightarrow> slice_to k (sorted_by_score_desc d))"
  have sub: "set items \<subseteq> set d"
    using set_slice_to [of _ "sorted_by_score_desc d"]
    by (auto simp: items_def set_sorted_by_score_desc split: option.splits)
  have keys: "(case fc of None \<Rightarrow> map fst (sorted_by_score_desc d)
               | Some k \<Rightarrow> slice_to k (map fst (sorted_by_score_desc d))) = map fst items"
    by (simp add: items_def map_slice_to split: option.splits)
  have "map (\<lambda>m. \<lparr>panel_mb_sn = m,
                   panel_score = (case map_of d m of None \<Rightarrow> Num 0 | Some s \<Rightarrow> s)\<rparr>)
          (map fst items)
        = map as_panel items"
    using sub assms by (auto simp: as_panel_def)
  then show ?thesis
    by (simp add: emit_def Let_def keys items_def)
qed

lemma final_result_cases:
  assumes "fst (filter_by_categories srch embeddings category_order fc tf w) = Inr res"
  shows "res = [] \<or> (\<exists>cands rs. res = emit fc (rescore cands rs))"
  using assms
  by (auto simp: filter_by_categories_def final_ranking_def search_by_category_def
           split: prod.splits sum.splits option.splits)

lemma distinct_rescore: "distinct (map fst (rescore cands rs))"
  by (simp add: rescore_collect distinct_collect)

lemma distinct_emit: "distinct (map panel_mb_sn (emit fc (rescore cands rs)))"
proof -
  have c: "panel_mb_sn \<circ> as_panel = fst"
    by (simp add: fun_eq_iff as_panel_def)
  have "distinct (map fst (slice_to k (sorted_by_score_desc (rescore cands rs))))" for k
    by (simp add: map_slice_to distinct_slice_to distinct_keys_sorted distinct_rescore)
  then show ?thesis
    by (simp add: emit_as_panel distinct_rescore distinct_keys_sorted c split: option.splits)
qed

lemma sorted_emit:
  assumes "distinct (map fst d)" and "NaN \<notin> snd ` set d"
  shows "sorted_wrt (\<lambda>a b. py_ge (panel_score a) (panel_score b)) (emit fc d)"
proof -
  have "sorted_wrt (\<lambda>a b. py_ge (panel_score a) (panel_score b)) (map as_panel xs)
        = sorted_wrt (\<lambda>a b. py_ge (snd a) (snd b)) xs" for xs
    by (simp add: sorted_wrt_map as_panel_def)
  then show ?thesis
    using assms by (simp add: emit_as_panel sorted_wrt_desc sorted_wrt_slice_to
                         split: option.splits)
qed

lemma mb_sn_in_D: "mb_sn_in r cands \<Longrightarrow> mb_sn_or_empty r \<in> set cands"
  by (auto simp: mb_sn_in_def mb_sn_or_empty_def split: option.splits)

lemma keys_rescore: "fst ` set (rescore cands rs) \<subseteq> set cands"
  by (auto simp: rescore_collect keys_collect)

lemma keys_rescore_filtered: "fst ` set (rescore_filtered cands rs) \<subseteq> set cands"
  by (auto simp: rescore_filtered_collect keys_collect dest: mb_sn_in_D)

lemma refine_stage_subset:
  "set (fst (refine_stage srch fc tf cat emb cands w)) \<subseteq> set cands"
proof -
  have a: "fst ` set (slice_to k (sorted_by_score_desc (rescore cands rs))) \<subseteq> set cands" for k rs
    using set_slice_to [of k "sorted_by_score_desc (rescore cands rs)"] keys_rescore [of cands rs]
    by (auto simp: set_sorted_by_score_desc)
  have b: "fst ` set (sorted_by_score_desc (rescore_filtered cands rs)) \<subseteq> set cands" for rs
    using keys_rescore_filtered [of cands rs] by (simp add: set_sorted_by_score_desc)
  show ?thesis
    using a b by (simp add: refine_stage_def Let_def split: prod.splits)
qed

lemma refine_loop_subset:
  "set (fst (refine_loop srch embeddings fc tf cats cands w)) \<subseteq> set cands"
proof (induction cats arbitrary: cands w)
  case Nil
  show ?case by simp
next
  case (Cons cat cats)
  show ?case
  proof (cases "embeddings cat")
    case None
    then show ?thesis using Cons.IH by simp
  next
    case (Some emb)
    show ?thesis
    proof (cases "cands = []")
      case True
      then show ?thesis using Some by simp
    next
      case False
      obtain cands' w' where st: "refine_stage srch fc tf cat emb cands w = (cands', w')"
        by (cases "refine_stage srch fc tf cat emb cands w")
      have "set cands' \<subseteq> set cands"
        using refine_stage_subset [of srch fc tf cat emb cands w] st by simp
      moreover have "set (fst (refine_loop srch embeddings fc tf cats cands' w')) \<subseteq> set cands'"
        by (rule Cons.IH)
      ultimately show ?thesis
        using Some False st by auto
    qed
  qed
qed

lemma log_search: "call_log (snd (search_by_category srch c w)) = call_log w @ [c]"
  by (simp add: search_by_category_def split: prod.splits)

lemma log_seed_stage:
  "call_log (snd (seed_stage srch fc tf cat emb w)) =
     call_log w @ [\<lparr>query_embedding = emb, category = cat,
                    top_k = initial_count fc (get_filter tf cat \<noteq> []),
                    filter_mb_sns = None, metadata_filter = Some (get_filter tf cat)\<rparr>]"
  by (simp add: seed_stage_def Let_def search_by_category_def split: prod.splits)

lemma log_refine_stage:
  "call_log (snd (refine_stage srch fc tf cat emb cands w)) =
     call_log w @ [\<lparr>query_embedding = emb, category = cat,
                    top_k = search_count fc (get_filter tf cat \<noteq> []) cands,
                    filter_mb_sns = Some cands, metadata_filter = Some (get_filter tf cat)\<rparr>]"
  by (simp add: refine_stage_def Let_def search_by_category_def split: prod.splits)

lemma log_refine_loop:
  "\<exists>ext. call_log (snd (refine_loop srch embeddings fc tf cats cands w)) = call_log w @ ext"
proof (induction cats arbitrary: cands w)
  case Nil
  show ?case by simp
next
  case (Cons cat cats)
  show ?case
  proof (cases "embeddings cat")
    case None
    then show ?thesis using Cons.IH by simp
  next
    case (Some emb)
    show ?thesis
    proof (cases "cands = []")
      case True
      then show ?thesis using Some by simp
    next
      case False
      obtain cands' w' where st: "refine_stage srch fc tf cat emb cands w = (cands', w')"
        by (cases "refine_stage srch fc tf cat emb cands w")
      obtain c where c: "call_log w' = call_log w @ [c]"
        using log_refine_stage [of srch fc tf cat emb cands w] st by simp
      obtain ext where "call_log (snd (refine_loop srch embeddings fc tf cats cands' w'))
                          = call_log w' @ ext"
        using Cons.IH by blast
      then show ?thesis
        using Some False st c by simp
    qed
  qed
qed

lemma log_final_ranking:
  "\<exists>ext. call_log (snd (final_ranking srch embeddings co fc cands w)) = call_log w @ ext"
  by (auto simp: final_ranking_def search_by_category_def split: option.splits prod.splits)

lemma map_of_collect:
  "map_of (collect P d rs) m =
     fold_best (map_of d m)
       (map score_or_zero (filter (\<lambda>r. P (mb_sn_or_empty r) \<and> mb_sn_or_empty r = m) rs))"
  by (induction rs arbitrary: d) (auto simp: collect_Nil collect_Cons map_of_keep_best)

lemma fold_best_Some:
  "v \<noteq> NaN \<Longrightarrow> NaN \<notin> set ss \<Longrightarrow>
     fold_best (Some v) ss = Some (Num (Max (num ` insert v (set ss))))"
proof (induction ss arbitrary: v)
  case Nil
  then show ?case by (cases v) simp_all
next
  case (Cons s ss)
  obtain x y where v: "v = Num x" and s: "s = Num y"
    using Cons.prems by (cases v; cases s) auto
  have step: "fold_best (Some v) (s # ss) = fold_best (Some (Num (max x y))) ss"
    by (auto simp: v s py_gt_def max_def)
  have ih: "fold_best (Some (Num (max x y))) ss
              = Some (Num (Max (num ` insert (Num (max x y)) (set ss))))"
    using Cons.prems by (intro Cons.IH) simp_all
  have "Max (num ` insert (Num (max x y)) (set ss)) = Max (num ` insert v (set (s # ss)))"
    by (cases "set ss = {}") (simp_all add: v s max.assoc)
  then show ?case
    by (simp only: step ih)
qed

lemma fold_best_None:
  "NaN \<notin> set ss \<Longrightarrow>
     fold_best None ss = (if ss = [] then None else Some (Num (Max (num ` set ss))))"
proof (cases ss)
  case Nil
  then show ?thesis by simp
next
  case (Cons s ss')
  assume "NaN \<notin> set ss"
  then have "s \<noteq> NaN" and "NaN \<notin> set ss'"
    using Cons by auto
  then show ?thesis
    using fold_best_Some [of s ss'] by (simp add: Cons)
qed

lemma map_of_rescore:
  assumes "\<forall>r \<in> set rs. score r \<noteq> Some NaN"
  shows "map_of (rescore cands rs) m =
     (if m \<in> set cands \<and> m \<in> mb_sn_or_empty ` set rs
      then Some (Num (Max {y. \<exists>r \<in> set rs. mb_sn_or_empty r = m \<and> score_or_zero r = Num y}))
      else None)"
proof -
  let ?ss = "map score_or_zero (filter (\<lambda>r. m \<in> set cands \<and> mb_sn_or_empty r = m) rs)"
  have nn: "score_or_zero r \<noteq> NaN" if "r \<in> set rs" for r
    using assms that by (auto simp: score_or_zero_def split: option.splits)
  have nan: "NaN \<notin> set ?ss"
  proof
    assume "NaN \<in> set ?ss"
    then obtain r where "r \<in> set rs" and "score_or_zero r = NaN"
      by (auto simp: eq_commute [of NaN])
    then show False
      using nn by blast
  qed
  have "filter (\<lambda>r. mb_sn_or_empty r \<in> set cands \<and> mb_sn_or_empty r = m) rs =
        filter (\<lambda>r. m \<in> set cands \<and> mb_sn_or_empty r = m) rs"
    by (rule filter_cong) auto
  then have eq: "map_of (rescore cands rs) m = fold_best None ?ss"
    using map_of_collect [of "\<lambda>m. m \<in> set cands" "[]" rs m]
    by (simp add: rescore_collect)
  show ?thesis
  proof (cases "m \<in> set cands \<and> m \<in> mb_sn_or_empty ` set rs")
    case True
    then have ne: "?ss \<noteq> []"
      by (auto simp: filter_empty_conv)
    have "num ` set ?ss = {y. \<exists>r \<in> set rs. mb_sn_or_empty r = m \<and> score_or_zero r = Num y}"
    proof (intro set_eqI iffI)
      fix y assume "y \<in> num ` set ?ss"
      then obtain r where r: "r \<in> set rs" "mb_sn_or_empty r = m" "y = num (score_or_zero r)"
        by auto
      then have "score_or_zero r = Num y"
        using nn [of r] by (cases "score_or_zero r") simp_all
      then show "y \<in> {y. \<exists>r \<in> set rs. mb_sn_or_empty r = m \<and> score_or_zero r = Num y}"
        using r by blast
    next
      fix y assume "y \<in> {y. \<exists>r \<in> set rs. mb_sn_or_empty r = m \<and> score_or_zero r = Num y}"
      then obtain r where r: "r \<in> set rs" "mb_sn_or_empty r = m" "score_or_zero r = Num y"
        by blast
      then have "score_or_zero r \<in> set ?ss"
        using True by (auto intro!: image_eqI [of _ _ r])
      then show "y \<in> num ` set ?ss"
        using r(3) by (metis image_eqI num.simps(1))
    qed
    then show ?thesis
      using True ne nan by (simp add: eq fold_best_None)
  next
    case False
    then have "?ss = []"
      by (auto simp: filter_empty_conv)
    then show ?thesis
      using False by (simp add: eq fold_best_None)
  qed
qed

lemma emit_None_set:
  "set (emit None (rescore cands rs)) = as_panel ` set (rescore cands rs)"
  by (simp add: emit_as_panel distinct_rescore set_sorted_by_score_desc)

lemma in_rescore_iff:
  "(m, s) \<in> set (rescore cands rs) \<longleftrightarrow> map_of (rescore cands rs) m = Some s"
  using distinct_rescore [of cands rs] by (auto dest: map_of_SomeD)

lemma result_is_emit:
  assumes "fst (filter_by_categories srch embeddings category_order fc tf w) = Inr res"
  shows "res = emit fc (final_scores srch embeddings category_order fc tf w)"
  using assms
  by (auto simp: filter_by_categories_def final_scores_def final_ranking_def emit_def
                 sorted_by_score_desc_def py_sorted_desc_def slice_to_def
           split: prod.splits sum.splits option.splits)

lemma distinct_final_scores:
  "distinct (map fst (final_scores srch embeddings category_order fc tf w))"
  by (auto simp: final_scores_def distinct_rescore split: prod.splits sum.splits option.splits)

lemma sorted_wrt_non_increasing:
  "sorted_wrt (\<lambda>a b. py_ge (panel_score a) (panel_score b)) res \<Longrightarrow> non_increasing res"
  by (induction res rule: non_increasing.induct) simp_all

lemma has_filter_iff:
  "get_filter tf cat \<noteq> [] \<longleftrightarrow> (\<exists>m f. tf = Some m \<and> m cat = Some f \<and> f \<noteq> [])"
  by (auto simp: get_filter_def split: option.splits)



section \<open>The claims\<close>

subsection \<open>C1: a later category without an embedding\<close>

text \<open>
  C1. The claim: when the first category has an embedding and a later category, the last
  one included, has none, the call does not raise. The loop skips such a category, but
  the final re-query reads \<open>embeddings[category_order[-1]]\<close> with a subscript. With
  embeddings for \<open>basic\<close> only and the order \<open>basic, income\<close>, the run with one seeded
  candidate raises \<open>KeyError('income')\<close>.
\<close>

theorem missing_last_embedding_raises:
  "fst (filter_by_categories searcher_one one_embedding [''basic'', ''income''] None None w0)
     = Inl (KeyError ''income'')"
  by (simp add: model_defs searcher_one_def one_embedding_def)

subsection \<open>C2: what the final ranking emits\<close>

text \<open>
  C2, counterexample. The claim: every identifier of the candidate list that enters the
  final ranking is emitted, with score 0.0 when the final response omits it. Here the
  candidates are \<open>p1\<close> and \<open>p2\<close>, the final response holds two records of \<open>p1\<close>, and
  the result holds \<open>p1\<close> alone.
\<close>

theorem final_ranking_drops_omitted_candidate:
  "fst (candidates_for_final searcher_omit one_embedding [''basic''] None None w0)
     = Inr (Some [''p1'', ''p2'']) \<and>
   fst (filter_by_categories searcher_omit one_embedding [''basic''] None None w0)
     = Inr [\<lparr>panel_mb_sn = ''p1'', panel_score = Num 7\<rparr>]"
  by (simp add: model_defs searcher_omit_def one_embedding_def)

text \<open>
  C2, amended. For a run, of any searcher from any state, that reaches the final ranking
  with candidates \<open>cands\<close> and whose last category has an embedding: the final re-query
  is for \<open>category_order[-1]\<close>, with \<open>top_k\<close> the number of candidates, the candidates
  as allow-list and no metadata filter; the result before truncation holds exactly the
  candidates that occur in the final response, and a candidate that the response omits
  is not emitted. When no score of the final response is NaN, each emitted score is
  the greatest score of its identifier in that response (a missing score counts as 0.0).
\<close>

theorem final_ranking_emits_scored_candidates:
  assumes "candidates_for_final srch embeddings category_order fc tf w_start
             = (Inr (Some cands), w)"
    and "embeddings (last category_order) = Some emb"
    and "srch (searcher_state w)
           \<lparr>query_embedding = emb, category = last category_order,
            top_k = int (length cands), filter_mb_sns = Some cands,
            metadata_filter = None\<rparr> = (final_results, s')"
  shows "filter_by_categories srch embeddings category_order fc tf w_start =
           (Inr (emit fc (rescore cands final_results)),
            \<lparr>searcher_state = s',
             call_log = call_log w @
               [\<lparr>query_embedding = emb, category = last category_order,
                 top_k = int (length cands), filter_mb_sns = Some cands,
                 metadata_filter = None\<rparr>]\<rparr>) \<and>
         panel_mb_sn ` set (emit None (rescore cands final_results)) =
           {m \<in> set cands. m \<in> mb_sn_or_empty ` set final_results} \<and>
         ((\<forall>r \<in> set final_results. score r \<noteq> Some NaN) \<longrightarrow>
          (\<forall>p \<in> set (emit None (rescore cands final_results)).
             panel_score p =
               Num (Max {y. \<exists>r \<in> set final_results.
                              mb_sn_or_empty r = panel_mb_sn p \<and> score_or_zero r = Num y})))"
proof (intro conjI impI ballI)
  show "filter_by_categories srch embeddings category_order fc tf w_start =
           (Inr (emit fc (rescore cands final_results)),
            \<lparr>searcher_state = s',
             call_log = call_log w @
               [\<lparr>query_embedding = emb, category = last category_order,
                 top_k = int (length cands), filter_mb_sns = Some cands,
                 metadata_filter = None\<rparr>]\<rparr>)"
    using assms by (simp add: filter_by_categories_def final_ranking_def search_by_category_def)
next
  have "panel_mb_sn ` as_panel ` set (rescore cands final_results)
          = fst ` set (rescore cands final_results)"
    by (simp add: image_image as_panel_def)
  also have "\<dots> = {m \<in> set cands. m \<in> mb_sn_or_empty ` set final_results}"
    using keys_collect [of "\<lambda>m. m \<in> set cands" "[]" final_results]
    by (simp add: rescore_collect)
  finally show "panel_mb_sn ` set (emit None (rescore cands final_results)) =
           {m \<in> set cands. m \<in> mb_sn_or_empty ` set final_results}"
    by (simp add: emit_None_set)
next
  fix p
  assume nan: "\<forall>r \<in> set final_results. score r \<noteq> Some NaN"
    and "p \<in> set (emit None (rescore cands final_results))"
  then obtain m s where ms: "(m, s) \<in> set (rescore cands final_results)"
    and p: "p = as_panel (m, s)"
    by (auto simp: emit_None_set)
  have "map_of (rescore cands final_results) m = Some s"
    using ms by (simp add: in_rescore_iff)
  then have "s = Num (Max {y. \<exists>r \<in> set final_results.
                                mb_sn_or_empty r = m \<and> score_or_zero r = Num y})"
    by (simp add: map_of_rescore [OF nan] split: if_splits)
  then show "panel_score p =
               Num (Max {y. \<exists>r \<in> set final_results.
                              mb_sn_or_empty r = panel_mb_sn p \<and> score_or_zero r = Num y})"
    by (simp add: p as_panel_def)
qed

text \<open>
  The amended C2 on the run of the counterexample: the re-query asks for two results
  among \<open>p1, p2\<close>, no score is NaN, and \<open>p1\<close> is emitted with the greater of its two
  scores.
\<close>

theorem final_ranking_emits_scored_candidates_witness:
  "filter_by_categories searcher_omit one_embedding [''basic''] None None w0 =
     (Inr (emit None (rescore [''p1'', ''p2''] [hit_of ''p1'' 7, hit_of ''p1'' 6])),
      \<lparr>searcher_state = (),
       call_log =
         [\<lparr>query_embedding = [1], category = ''basic'', top_k = 10000,
           filter_mb_sns = None, metadata_filter = Some []\<rparr>,
          \<lparr>query_embedding = [1], category = ''basic'', top_k = 2,
           filter_mb_sns = Some [''p1'', ''p2''], metadata_filter = None\<rparr>]\<rparr>) \<and>
   panel_mb_sn ` set (emit None (rescore [''p1'', ''p2''] [hit_of ''p1'' 7, hit_of ''p1'' 6]))
     = {''p1''} \<and>
   score (hit_of ''p1'' 7) \<noteq> Some NaN \<and> score (hit_of ''p1'' 6) \<noteq> Some NaN \<and>
   emit None (rescore [''p1'', ''p2''] [hit_of ''p1'' 7, hit_of ''p1'' 6])
     = [\<lparr>panel_mb_sn = ''p1'', panel_score = Num 7\<rparr>] \<and>
   panel_score \<lparr>panel_mb_sn = ''p1'', panel_score = Num 7\<rparr> = Num (Max {7, 6})"
proof -
  let ?w = "\<lparr>searcher_state = (),
             call_log = [\<lparr>query_embedding = [1], category = ''basic'', top_k = 10000,
                          filter_mb_sns = None, metadata_filter = Some []\<rparr>]\<rparr>"
  let ?rs = "[hit_of ''p1'' 7, hit_of ''p1'' 6]"
  have h1: "candidates_for_final searcher_omit one_embedding [''basic''] None None w0
              = (Inr (Some [''p1'', ''p2'']), ?w)"
    by (simp add: model_defs searcher_omit_def one_embedding_def)
  have h2: "one_embedding (last [''basic'']) = Some [1]"
    by (simp add: one_embedding_def)
  have h3: "searcher_omit (searcher_state ?w)
              \<lparr>query_embedding = [1], category = last [''basic''],
               top_k = int (length [''p1'', ''p2'']), filter_mb_sns = Some [''p1'', ''p2''],
               metadata_filter = None\<rparr> = (?rs, ())"
    by (simp add: searcher_omit_def)
  note inst = final_ranking_emits_scored_candidates [OF h1 h2 h3]
  have n: "\<forall>r \<in> set ?rs. score r \<noteq> Some NaN"
    by (simp add: hit_of_def)
  have e: "emit None (rescore [''p1'', ''p2''] ?rs)
             = [\<lparr>panel_mb_sn = ''p1'', panel_score = Num 7\<rparr>]"
    by (simp add: model_defs)
  have run: "filter_by_categories searcher_omit one_embedding [''basic''] None None w0 =
     (Inr (emit None (rescore [''p1'', ''p2''] ?rs)),
      \<lparr>searcher_state = (),
       call_log = call_log ?w @
          [\<lparr>query_embedding = [1], category = last [''basic''],
            top_k = int (length [''p1'', ''p2'']),
            filter_mb_sns = Some [''p1'', ''p2''], metadata_filter = None\<rparr>]\<rparr>)"
    using inst by blast
  have ids: "panel_mb_sn ` set (emit None (rescore [''p1'', ''p2''] ?rs))
               = {m \<in> set [''p1'', ''p2'']. m \<in> mb_sn_or_empty ` set ?rs}"
    using inst by blast
  have "{m \<in> set [''p1'', ''p2'']. m \<in> mb_sn_or_empty ` set ?rs} = {''p1''}"
    by (auto simp: hit_of_def mb_sn_or_empty_def)
  then have ids': "panel_mb_sn ` set (emit None (rescore [''p1'', ''p2''] ?rs)) = {''p1''}"
    using ids by simp
  have "\<forall>p \<in> set (emit None (rescore [''p1'', ''p2''] ?rs)).
          panel_score p =
            Num (Max {y. \<exists>r \<in> set ?rs. mb_sn_or_empty r = panel_mb_sn p \<and>
                                       score_or_zero r = Num y})"
    using inst n by blast
  then have "panel_score \<lparr>panel_mb_sn = ''p1'', panel_score = Num 7\<rparr> =
               Num (Max {y. \<exists>r \<in> set ?rs. mb_sn_or_empty r = ''p1'' \<and> score_or_zero r = Num y})"
    unfolding e by simp
  moreover have "{y. \<exists>r \<in> set ?rs. mb_sn_or_empty r = ''p1'' \<and> score_or_zero r = Num y} = {7, 6}"
    by (auto simp: hit_of_def mb_sn_or_empty_def score_or_zero_def)
  ultimately have best: "panel_score \<lparr>panel_mb_sn = ''p1'', panel_score = Num 7\<rparr>
                           = Num (Max {7, 6})"
    by (simp only:)
  have n': "score (hit_of ''p1'' 7) \<noteq> Some NaN" "score (hit_of ''p1'' 6) \<noteq> Some NaN"
    by (simp_all add: hit_of_def)
  from run have run': "filter_by_categories searcher_omit one_embedding [''basic''] None None w0 =
     (Inr (emit None (rescore [''p1'', ''p2''] ?rs)),
      \<lparr>searcher_state = (),
       call_log =
         [\<lparr>query_embedding = [1], category = ''basic'', top_k = 10000,
           filter_mb_sns = None, metadata_filter = Some []\<rparr>,
          \<lparr>query_embedding = [1], category = ''basic'', top_k = 2,
           filter_mb_sns = Some [''p1'', ''p2''], metadata_filter = None\<rparr>]\<rparr>)"
    by simp
  show ?thesis
    using run' ids' n' e best by (intro conjI)
qed

subsection \<open>C3: an empty candidate list\<close>

text \<open>
  C3. The claim: once the candidate list is empty the searcher is never called with an
  empty allow-list. The emptiness test in the loop (line 126) ends the loop only; the
  final re-query of line 189 follows without a test. Here the second stage leaves no
  candidate, and the third call carries the allow-list \<open>[]\<close> and \<open>top_k = 0\<close>. The
  result is empty.
\<close>

theorem final_requery_with_empty_allow_list:
  "filter_by_categories searcher_seed_only two_embeddings [''basic'', ''income''] None None w0 =
     (Inr [],
      \<lparr>searcher_state = (),
       call_log =
         [\<lparr>query_embedding = [1], category = ''basic'', top_k = 10000,
           filter_mb_sns = None, metadata_filter = Some []\<rparr>,
          \<lparr>query_embedding = [2], category = ''income'', top_k = 2,
           filter_mb_sns = Some [''p1''], metadata_filter = Some []\<rparr>,
          \<lparr>query_embedding = [2], category = ''income'', top_k = 0,
           filter_mb_sns = Some [], metadata_filter = None\<rparr>]\<rparr>)"
  by (simp add: model_defs searcher_seed_only_def two_embeddings_def)

subsection \<open>C4: records with missing fields\<close>

text \<open>
  C4. The claim: a record without a score never makes the operation fail, in any stage.
  The seeding stage without a metadata filter sorts with the key \<open>x["score"]\<close>
  (line 101), where every other stage reads \<open>r.get("score", 0.0)\<close>. One record with
  an identifier and no score raises \<open>KeyError('score')\<close>.
\<close>

theorem unfiltered_seed_missing_score_raises:
  "fst (filter_by_categories searcher_noscore one_embedding [''basic''] None None w0)
     = Inl (KeyError ''score'')"
  by (simp add: model_defs searcher_noscore_def one_embedding_def)

subsection \<open>C5: truncation to \<open>final_count\<close>\<close>

text \<open>
  C5, counterexample. The claim: with \<open>final_count = k\<close> and more than \<open>k\<close> candidates
  surviving to the final ranking, the result has length \<open>k\<close>. Here \<open>k = 2\<close>, three
  candidates enter the final ranking, the final response holds three records of \<open>p1\<close>,
  and the result has length 1.
\<close>

theorem final_count_not_reached:
  "fst (candidates_for_final searcher_repeat one_embedding [''basic''] (Some 2) None w0)
     = Inr (Some [''p1'', ''p2'', ''p3'']) \<and>
   fst (filter_by_categories searcher_repeat one_embedding [''basic''] (Some 2) None w0)
     = Inr [\<lparr>panel_mb_sn = ''p1'', panel_score = Num 6\<rparr>]"
  by (simp add: model_defs searcher_repeat_def one_embedding_def)

text \<open>
  C5, amended. Let \<open>ranking\<close> be what the final ranking of the run yields without a
  cut: the candidates that occur in the final response, each with the score kept for
  it. For any searcher and any state, with \<open>final_count = k\<close>, \<open>k\<close> not negative, and
  more than \<open>k\<close> entries in \<open>ranking\<close>, the call returns a list of length exactly \<open>k\<close>,
  the first \<open>k\<close> entries of \<open>ranking\<close>; when no score of \<open>ranking\<close> is NaN, every entry
  kept scores at least as high as every entry dropped.
\<close>

theorem final_count_truncation:
  assumes "candidates_for_final srch embeddings category_order (Some k) tf w_start
             = (Inr (Some cands), w)"
    and "fst (final_ranking srch embeddings category_order None cands w) = Inr ranking"
    and "0 \<le> k" and "k < int (length ranking)"
  shows "\<exists>res. fst (filter_by_categories srch embeddings category_order (Some k) tf w_start)
                 = Inr res \<and>
           length res = nat k \<and> res = take (nat k) ranking \<and>
           ((\<forall>q \<in> set ranking. panel_score q \<noteq> NaN) \<longrightarrow>
            (\<forall>p \<in> set res. \<forall>q \<in> set (drop (nat k) ranking).
               py_ge (panel_score p) (panel_score q)))"
proof -
  obtain d where res: "fst (final_ranking srch embeddings category_order (Some k) cands w)
                         = Inr (emit (Some k) d)"
    and ranking: "ranking = emit None d" and d: "d = rescore cands (fst (srch (searcher_state w)
           \<lparr>query_embedding = the (embeddings (last category_order)),
            category = last category_order, top_k = int (length cands),
            filter_mb_sns = Some cands, metadata_filter = None\<rparr>))"
    using assms(2)
    by (auto simp: final_ranking_def search_by_category_def split: option.splits prod.splits)
  have dd: "distinct (map fst d)"
    by (simp add: d distinct_rescore)
  have run: "fst (filter_by_categories srch embeddings category_order (Some k) tf w_start)
               = Inr (emit (Some k) d)"
    using assms(1) res by (simp add: filter_by_categories_def)
  have t: "emit (Some k) d = take (nat k) ranking"
    using assms(3) by (simp add: ranking emit_as_panel dd slice_to_def take_map)
  have order: "\<forall>p \<in> set (take (nat k) ranking). \<forall>q \<in> set (drop (nat k) ranking).
                 py_ge (panel_score p) (panel_score q)"
    if nan: "\<forall>q \<in> set ranking. panel_score q \<noteq> NaN"
  proof -
    have "set ranking = as_panel ` set d"
      by (simp add: ranking emit_as_panel dd set_sorted_by_score_desc)
    then have "NaN \<notin> snd ` set d"
      using nan by (force simp: as_panel_def)
    then have "sorted_wrt (\<lambda>a b. py_ge (panel_score a) (panel_score b)) ranking"
      unfolding ranking using dd by (intro sorted_emit)
    then have "sorted_wrt (\<lambda>a b. py_ge (panel_score a) (panel_score b))
                 (take (nat k) ranking @ drop (nat k) ranking)"
      by simp
    then show ?thesis
      unfolding sorted_wrt_append by blast
  qed
  show ?thesis
    using run t order assms(3,4) by simp
qed

text \<open>
  The amended C5 on a run that ranks three panels with \<open>final_count = 2\<close>: no score is
  NaN, the two best are returned, and the one dropped scores less.
\<close>

theorem final_count_truncation_witness:
  "fst (final_ranking searcher_dup one_embedding [''basic''] None [''p1'', ''p2'', ''p3'']
          \<lparr>searcher_state = (),
           call_log = [\<lparr>query_embedding = [1], category = ''basic'', top_k = 2000,
                        filter_mb_sns = None, metadata_filter = Some []\<rparr>]\<rparr>)
     = Inr [\<lparr>panel_mb_sn = ''p1'', panel_score = Num 9\<rparr>,
            \<lparr>panel_mb_sn = ''p2'', panel_score = Num 8\<rparr>,
            \<lparr>panel_mb_sn = ''p3'', panel_score = Num 6\<rparr>] \<and>
   fst (filter_by_categories searcher_dup one_embedding [''basic''] (Some 2) None w0)
     = Inr [\<lparr>panel_mb_sn = ''p1'', panel_score = Num 9\<rparr>,
            \<lparr>panel_mb_sn = ''p2'', panel_score = Num 8\<rparr>] \<and>
   py_ge (Num 9) (Num 6) \<and> py_ge (Num 8) (Num 6)"
proof -
  let ?w = "\<lparr>searcher_state = (),
             call_log = [\<lparr>query_embedding = [1], category = ''basic'', top_k = 2000,
                          filter_mb_sns = None, metadata_filter = Some []\<rparr>]\<rparr>"
  let ?ranking = "[\<lparr>panel_mb_sn = ''p1'', panel_score = Num 9\<rparr>,
                   \<lparr>panel_mb_sn = ''p2'', panel_score = Num 8\<rparr>,
                   \<lparr>panel_mb_sn = ''p3'', panel_score = Num 6\<rparr>]"
  have h1: "candidates_for_final searcher_dup one_embedding [''basic''] (Some 2) None w0
              = (Inr (Some [''p1'', ''p2'', ''p3'']), ?w)"
    by (simp add: model_defs searcher_dup_def one_embedding_def)
  have h2: "fst (final_ranking searcher_dup one_embedding [''basic''] None
                   [''p1'', ''p2'', ''p3''] ?w) = Inr ?ranking"
    by (simp add: model_defs searcher_dup_def one_embedding_def)
  have h3: "(0::int) \<le> 2" and h4: "2 < int (length ?ranking)"
    by simp_all
  have n: "\<forall>q \<in> set ?ranking. panel_score q \<noteq> NaN"
    by simp
  obtain res where res: "fst (filter_by_categories searcher_dup one_embedding [''basic'']
                                (Some 2) None w0) = Inr res"
    and t: "res = take (nat 2) ?ranking"
    and o: "\<forall>p \<in> set res. \<forall>q \<in> set (drop (nat 2) ?ranking).
              py_ge (panel_score p) (panel_score q)"
    using final_count_truncation [OF h1 h2 h3 h4] n by blast
  have r: "res = [\<lparr>panel_mb_sn = ''p1'', panel_score = Num 9\<rparr>,
                  \<lparr>panel_mb_sn = ''p2'', panel_score = Num 8\<rparr>]"
    using t by simp
  have "py_ge (Num 9) (Num 6)" "py_ge (Num 8) (Num 6)"
    using o unfolding r by simp_all
  then show ?thesis
    using h2 res r by simp
qed

subsection \<open>C6: unique identifiers\<close>

text \<open>
  C6. Whatever the searcher answers, with duplicates or not, a list that
  \<open>filter_by_categories\<close> returns holds no identifier twice.
\<close>

theorem result_unique_ids:
  assumes "fst (filter_by_categories srch embeddings category_order fc tf w) = Inr res"
  shows "distinct (map panel_mb_sn res)"
  using final_result_cases [OF assms] distinct_emit by auto

text \<open>C6 on a run whose searcher returns \<open>p1\<close> twice in every response.\<close>

theorem result_unique_ids_witness:
  "fst (filter_by_categories searcher_dup one_embedding [''basic''] None None w0) =
     Inr [\<lparr>panel_mb_sn = ''p1'', panel_score = Num 9\<rparr>,
          \<lparr>panel_mb_sn = ''p2'', panel_score = Num 8\<rparr>,
          \<lparr>panel_mb_sn = ''p3'', panel_score = Num 6\<rparr>] \<and>
   distinct (map panel_mb_sn
     [\<lparr>panel_mb_sn = ''p1'', panel_score = Num 9\<rparr>,
      \<lparr>panel_mb_sn = ''p2'', panel_score = Num 8\<rparr>,
      \<lparr>panel_mb_sn = ''p3'', panel_score = Num 6\<rparr>])"
proof -
  have h: "fst (filter_by_categories searcher_dup one_embedding [''basic''] None None w0) =
     Inr [\<lparr>panel_mb_sn = ''p1'', panel_score = Num 9\<rparr>,
          \<lparr>panel_mb_sn = ''p2'', panel_score = Num 8\<rparr>,
          \<lparr>panel_mb_sn = ''p3'', panel_score = Num 6\<rparr>]"
    by (simp add: model_defs searcher_dup_def one_embedding_def)
  show ?thesis
    using result_unique_ids [OF h] h by blast
qed

subsection \<open>C7: descending scores\<close>

text \<open>
  C7, counterexample. The claim: for every sequence of searcher responses the returned
  list is in non-increasing order of score. Here the final response gives \<open>p1\<close> the
  score NaN, between \<open>p2\<close> with 1.0 and \<open>p3\<close> with 2.0. Every comparison with NaN is
  false, the sort leaves the three entries as they are, and the returned list has 1.0
  before NaN before 2.0.
\<close>

theorem result_not_descending_with_nan:
  "fst (filter_by_categories searcher_nan one_embedding [''basic''] None None w0) =
     Inr [\<lparr>panel_mb_sn = ''p2'', panel_score = Num 1\<rparr>,
          \<lparr>panel_mb_sn = ''p1'', panel_score = NaN\<rparr>,
          \<lparr>panel_mb_sn = ''p3'', panel_score = Num 2\<rparr>] \<and>
   \<not> non_increasing
        [\<lparr>panel_mb_sn = ''p2'', panel_score = Num 1\<rparr>,
         \<lparr>panel_mb_sn = ''p1'', panel_score = NaN\<rparr>,
         \<lparr>panel_mb_sn = ''p3'', panel_score = Num 2\<rparr>] \<and>
   \<not> py_ge (Num 1) (Num 2)"
  by (simp add: model_defs searcher_nan_def one_embedding_def)

text \<open>
  C7, amended. Whatever the searcher answers and from whatever state, when none of the
  final scores (the score kept for each candidate from the final response) is NaN, a
  list that \<open>filter_by_categories\<close> returns is in non-increasing order of score:
  \<open>score(a) >= score(b)\<close> for every adjacent pair, and for every \<open>a\<close> before \<open>b\<close>.
\<close>

theorem result_descending:
  assumes "fst (filter_by_categories srch embeddings category_order fc tf w) = Inr res"
    and "NaN \<notin> snd ` set (final_scores srch embeddings category_order fc tf w)"
  shows "non_increasing res \<and>
         sorted_wrt (\<lambda>a b. py_ge (panel_score a) (panel_score b)) res"
proof -
  have "res = emit fc (final_scores srch embeddings category_order fc tf w)"
    using assms(1) by (rule result_is_emit)
  then have "sorted_wrt (\<lambda>a b. py_ge (panel_score a) (panel_score b)) res"
    using sorted_emit [OF distinct_final_scores assms(2)] by simp
  then show ?thesis
    by (simp add: sorted_wrt_non_increasing)
qed

text \<open>C7, amended, on a run with two categories, both with an embedding.\<close>

theorem result_descending_witness:
  "fst (filter_by_categories searcher_dup two_embeddings [''basic'', ''income''] None None w0) =
     Inr [\<lparr>panel_mb_sn = ''p1'', panel_score = Num 9\<rparr>,
          \<lparr>panel_mb_sn = ''p2'', panel_score = Num 8\<rparr>,
          \<lparr>panel_mb_sn = ''p3'', panel_score = Num 6\<rparr>] \<and>
   NaN \<notin> snd ` set (final_scores searcher_dup two_embeddings [''basic'', ''income'']
                      None None w0) \<and>
   non_increasing
     [\<lparr>panel_mb_sn = ''p1'', panel_score = Num 9\<rparr>,
      \<lparr>panel_mb_sn = ''p2'', panel_score = Num 8\<rparr>,
      \<lparr>panel_mb_sn = ''p3'', panel_score = Num 6\<rparr>]"
proof -
  have h: "fst (filter_by_categories searcher_dup two_embeddings [''basic'', ''income'']
                  None None w0) =
     Inr [\<lparr>panel_mb_sn = ''p1'', panel_score = Num 9\<rparr>,
          \<lparr>panel_mb_sn = ''p2'', panel_score = Num 8\<rparr>,
          \<lparr>panel_mb_sn = ''p3'', panel_score = Num 6\<rparr>]"
    by (simp add: model_defs searcher_dup_def two_embeddings_def)
  have n: "NaN \<notin> snd ` set (final_scores searcher_dup two_embeddings [''basic'', ''income'']
                             None None w0)"
    by (simp add: model_defs searcher_dup_def two_embeddings_def)
  show ?thesis
    using result_descending [OF h n] h n by blast
qed

subsection \<open>C8: no identifier is introduced by a refinement stage\<close>

text \<open>
  C8. Whatever identifiers the searcher returns, the candidates after a refinement
  stage are among the candidates before it, and so the candidates after the whole
  loop are among those it started with.
\<close>

theorem refinement_introduces_no_identifier:
  "set (fst (refine_stage srch fc tf cat emb cands w)) \<subseteq> set cands \<and>
   set (fst (refine_loop srch embeddings fc tf cats cands w)) \<subseteq> set cands"
  using refine_stage_subset refine_loop_subset by blast

subsection \<open>C9: the width of the first search\<close>

text \<open>
  C9. When the first category has an embedding, the first call of the run is the
  seeding search, without allow-list, and its \<open>top_k\<close> is 10000 when \<open>topic_filters\<close>
  holds a non-empty filter for the first category, whatever \<open>final_count\<close> is; 10000
  when it holds none and \<open>final_count\<close> is unset; and \<open>max(final_count * 10, 2000)\<close>
  when it holds none and \<open>final_count\<close> is set.
\<close>

theorem seeding_top_k:
  assumes "embeddings first_category = Some first_embedding"
  shows "\<exists>c rest.
           call_log (snd (filter_by_categories srch embeddings (first_category # cats) fc tf w))
             = call_log w @ c # rest \<and>
           query_embedding c = first_embedding \<and>
           category c = first_category \<and> filter_mb_sns c = None \<and>
           top_k c = (if \<exists>m f. tf = Some m \<and> m first_category = Some f \<and> f \<noteq> []
                      then 10000
                      else case fc of None \<Rightarrow> 10000 | Some k \<Rightarrow> max (k * 10) 2000)"
proof -
  define c where "c = \<lparr>query_embedding = first_embedding, category = first_category,
                    top_k = initial_count fc (get_filter tf first_category \<noteq> []),
                    filter_mb_sns = None, metadata_filter = Some (get_filter tf first_category)\<rparr>"
  obtain r1 w1 where s1: "seed_stage srch fc tf first_category first_embedding w = (r1, w1)"
    by (cases "seed_stage srch fc tf first_category first_embedding w")
  have l1: "call_log w1 = call_log w @ [c]"
    using log_seed_stage [of srch fc tf first_category first_embedding w] s1 by (simp add: c_def)
  have "\<exists>rest. call_log (snd (filter_by_categories srch embeddings (first_category # cats) fc tf w))
             = call_log w @ c # rest"
  proof (cases r1)
    case (Inl e)
    then show ?thesis
      using assms s1 l1 by (simp add: filter_by_categories_def candidates_for_final_def)
  next
    case (Inr cands)
    show ?thesis
    proof (cases "cands = []")
      case True
      then show ?thesis
        using assms s1 l1 Inr by (simp add: filter_by_categories_def candidates_for_final_def)
    next
      case False
      obtain cands2 w2 where s2: "refine_loop srch embeddings fc tf cats cands w1 = (cands2, w2)"
        by (cases "refine_loop srch embeddings fc tf cats cands w1")
      obtain e2 where l2: "call_log w2 = call_log w1 @ e2"
        using log_refine_loop [of srch embeddings fc tf cats cands w1] s2 by auto
      obtain e3 where l3: "call_log (snd (final_ranking srch embeddings (first_category # cats)
                                      fc cands2 w2)) = call_log w2 @ e3"
        using log_final_ranking by blast
      show ?thesis
        using assms s1 Inr False s2 l1 l2 l3
        by (simp add: filter_by_categories_def candidates_for_final_def)
    qed
  qed
  moreover have "top_k c = (if \<exists>m f. tf = Some m \<and> m first_category = Some f \<and> f \<noteq> []
                      then 10000
                      else case fc of None \<Rightarrow> 10000 | Some k \<Rightarrow> max (k * 10) 2000)"
    unfolding has_filter_iff [symmetric]
    by (simp add: c_def initial_count_def split: option.splits)
  moreover have "query_embedding c = first_embedding" "category c = first_category"
    "filter_mb_sns c = None"
    by (simp_all add: c_def)
  ultimately show ?thesis
    by blast
qed

text \<open>
  C9 with \<open>final_count = 100\<close>: without metadata filters the first search asks for
  2000, and with the filter \<open>{"age_min": "30"}\<close> on the first category for 10000.
\<close>

theorem seeding_top_k_witness:
  "(\<exists>c rest.
      call_log (snd (filter_by_categories searcher_one one_embedding (''basic'' # [])
                       (Some 100) None w0)) = call_log w0 @ c # rest \<and>
      category c = ''basic'' \<and> filter_mb_sns c = None \<and> top_k c = 2000) \<and>
   (\<exists>c rest.
      call_log (snd (filter_by_categories searcher_one one_embedding (''basic'' # [])
                       (Some 100) some_filters w0)) = call_log w0 @ c # rest \<and>
      category c = ''basic'' \<and> filter_mb_sns c = None \<and> top_k c = 10000)"
proof -
  have h: "one_embedding ''basic'' = Some [1]"
    by (simp add: one_embedding_def)
  have a: "\<not> (\<exists>m f. (None :: (string \<rightharpoonup> filter_spec) option) = Some m \<and>
                     m ''basic'' = Some f \<and> f \<noteq> [])"
    by simp
  have b: "\<exists>m f. some_filters = Some m \<and> m ''basic'' = Some f \<and> f \<noteq> []"
    by (simp add: some_filters_def)
  have "\<exists>c rest.
      call_log (snd (filter_by_categories searcher_one one_embedding (''basic'' # [])
                       (Some 100) None w0)) = call_log w0 @ c # rest \<and>
      category c = ''basic'' \<and> filter_mb_sns c = None \<and> top_k c = 2000"
    using seeding_top_k [where embeddings = one_embedding and first_category = "''basic''"
            and first_embedding = "[1]" and srch = searcher_one and cats = "[]"
            and fc = "Some 100" and tf = None and w = w0, OF h] a
    by simp blast
  moreover have "\<exists>c rest.
      call_log (snd (filter_by_categories searcher_one one_embedding (''basic'' # [])
                       (Some 100) some_filters w0)) = call_log w0 @ c # rest \<and>
      category c = ''basic'' \<and> filter_mb_sns c = None \<and> top_k c = 10000"
    using seeding_top_k [where embeddings = one_embedding and first_category = "''basic''"
            and first_embedding = "[1]" and srch = searcher_one and cats = "[]"
            and fc = "Some 100" and tf = some_filters and w = w0, OF h] b
    by (simp only: if_True) blast
  ultimately show ?thesis
    by blast
qed

subsection \<open>C10: the width of a refinement search\<close>



end
